theory Spec2Isabelle
  imports Main "HOL-Library.Sublist"
begin

section \<open>Requests, responses and handlers\<close>

text \<open>
  A Go handler has the signature \<^verbatim>\<open>func (w http.ResponseWriter, r *http.Request)\<close>
  and acts on the response writer, on the process log and on the per-request context.
  Everything a handler can touch is collected in a \<open>world\<close> that is passed in and
  returned. A handler either returns or panics; a panic unwinds through the callers
  and runs their deferred statements on the way.
\<close>

record response =
  status :: "nat option"
  headers :: "(string \<times> string) list"
  body :: string

text \<open>
  \<open>req_id\<close> stands for the identity of the \<^verbatim>\<open>*http.Request\<close> pointer; \<open>vars\<close> are the
  route variables that \<^verbatim>\<open>mux.Vars(r)\<close> returns.
\<close>

record request =
  req_id :: nat
  url_path :: string
  vars :: "(string \<times> string) list"

datatype ctx_value = Logger string | Session nat

record world =
  resp :: response
  logs :: "string list"
  ctx_store :: "nat \<Rightarrow> string \<rightharpoonup> ctx_value"
  next_session :: nat
  open_sessions :: "nat list"

datatype outcome = Returned | Panicked

type_synonym handler = "request \<Rightarrow> world \<Rightarrow> outcome \<times> world"

text \<open>\<^verbatim>\<open>type Adapter func(http.Handler) http.Handler\<close>\<close>

type_synonym Adapter = "handler \<Rightarrow> handler"

text \<open>\<^verbatim>\<open>log.Println(msg)\<close>: one more record at the end of the log.\<close>

definition log_Println :: "string \<Rightarrow> world \<Rightarrow> world" where
  "log_Println msg w = w\<lparr>logs := logs w @ [msg]\<rparr>"

text \<open>
  Modelled from the spec: the response writer of net/http, of which the sources only
  have the interface (\<^verbatim>\<open>Header() Header\<close>, \<^verbatim>\<open>Write([]byte) (int, error)\<close>,
  \<^verbatim>\<open>WriteHeader(int)\<close>); a handler "writes status code, headers, body" to it. The
  status is written once: a later \<open>WriteHeader\<close> changes nothing.
\<close>

definition WriteHeader :: "nat \<Rightarrow> world \<Rightarrow> world" where
  "WriteHeader code w =
     (case status (resp w) of
        None \<Rightarrow> w\<lparr>resp := (resp w)\<lparr>status := Some code\<rparr>\<rparr>
      | Some c \<Rightarrow> w)"

text \<open>
  Modelled from the spec: \<open>Write\<close> of the response writer. The bytes go to the end of the
  body; on a response without a status the status 200 is written first (the test of
  the sources expects \<^verbatim>\<open>http.StatusOK\<close> from a handler that only writes).
\<close>

definition Write :: "string \<Rightarrow> world \<Rightarrow> world" where
  "Write s w =
     (let w1 = WriteHeader 200 w
      in w1\<lparr>resp := (resp w1)\<lparr>body := body (resp w1) @ s\<rparr>\<rparr>)"

text \<open>\<^verbatim>\<open>fmt.Fprint(w, s)\<close> on the response writer is a \<open>Write\<close> of the formatted bytes.\<close>

definition Fprint :: "string \<Rightarrow> world \<Rightarrow> world" where
  "Fprint s w = Write s w"

text \<open>
  Modelled from the spec: \<^verbatim>\<open>http.Error(w, msg, code)\<close> of net/http, an error response
  with the status chosen by the caller: the status, then the message and a newline.
\<close>

definition http_Error :: "string \<Rightarrow> nat \<Rightarrow> world \<Rightarrow> world" where
  "http_Error msg code w = Fprint (msg @ ''\<newline>'') (WriteHeader code w)"

section \<open>The adapter chain\<close>

text \<open>
  \<^verbatim>\<open>
  func Adapt(h http.Handler, adapters ...Adapter) http.Handler {
    for _, adapter := range adapters {
      h = adapter(h)
    }
    return h // The nested handler
  }
  \<close>
  The loop runs over the adapters from the first to the last, each time replacing
  \<open>h\<close> by the adapted handler.
\<close>

fun Adapt :: "handler \<Rightarrow> Adapter list \<Rightarrow> handler" where
  "Adapt h [] = h"
| "Adapt h (adapter # adapters) = Adapt (adapter h) adapters"

text \<open>
  \<^verbatim>\<open>
  func Notify() Adapter {
    return func(h http.Handler) http.Handler {
      return http.HandlerFunc(func (w http.ResponseWriter, r *http.Request) {
        log.Println("before")
        defer log.Println("after")
        h.ServeHTTP(w, r)
      })
    }
  }
  \<close>
  The deferred statement runs when the function is left, whether \<open>h\<close> returned or
  panicked; a panic goes on to the caller afterwards.
\<close>

definition Notify :: Adapter where
  "Notify h = (\<lambda>r w.
     let w1 = log_Println ''before'' w;
         (out, w2) = h r w1
     in (out, log_Println ''after'' w2))"

text \<open>
  The shape of \<open>Notify\<close> with its two statements as parameters: run \<open>pre\<close>, defer
  \<open>post\<close>, serve the wrapped handler.
\<close>

definition PrePost :: "(world \<Rightarrow> world) \<Rightarrow> (world \<Rightarrow> world) \<Rightarrow> Adapter" where
  "PrePost pre post h = (\<lambda>r w.
     let w1 = pre w;
         (out, w2) = h r w1
     in (out, post w2))"

text \<open>
  \<^verbatim>\<open>
  func logging(f http.HandlerFunc) http.HandlerFunc {
    return func (w http.ResponseWriter, r *http.Request) {
      log.Println(r.URL.Path)
      f(w, r)
    }
  }

  func foo(w http.ResponseWriter, r *http.Request) {
    fmt.Fprintln(w, "foo")
  }
  \<close>
\<close>

definition logging :: "handler \<Rightarrow> handler" where
  "logging f = (\<lambda>r w.
     let w1 = log_Println (url_path r) w
     in f r w1)"

definition foo :: handler where
  "foo r w = (Returned, Fprint ''foo\<newline>'' w)"

text \<open>A handler that only leaves one record in the log, to make its run visible.\<close>

definition mark :: "string \<Rightarrow> handler" where
  "mark msg r w = (Returned, log_Println msg w)"

text \<open>A fresh response, an empty log and an empty context.\<close>

definition response0 :: response where
  "response0 = \<lparr>status = None, headers = [], body = []\<rparr>"

definition world0 :: world where
  "world0 = \<lparr>resp = response0, logs = [], ctx_store = (\<lambda>_. Map.empty),
              next_session = 0, open_sessions = []\<rparr>"

definition request0 :: "string \<Rightarrow> request" where
  "request0 p = \<lparr>req_id = 0, url_path = p, vars = []\<rparr>"

section \<open>The request context and the database session\<close>

text \<open>
  Modelled from the spec: the request context store (\<^verbatim>\<open>context.Set\<close>, \<^verbatim>\<open>context.Get\<close> of
  gorilla/context), whose code is not among the sources. The spec has \<open>set(request,
  key, value)\<close> and \<open>get(request, key)\<close> on "a per-request mapping from string keys to
  arbitrary values", "an isolated slot keyed by request identity"; the sources describe
  it as a \<^verbatim>\<open>map[string]interface{}\<close> per request. A key that was never set reads as
  \<open>None\<close> (Go's nil).
\<close>

definition context_Set :: "request \<Rightarrow> string \<Rightarrow> ctx_value \<Rightarrow> world \<Rightarrow> world" where
  "context_Set r key val w =
     w\<lparr>ctx_store := (ctx_store w)(req_id r := (ctx_store w (req_id r))(key \<mapsto> val))\<rparr>"

text \<open>
  Modelled from the spec: \<^verbatim>\<open>context.Get\<close>, the \<open>get(request, key)\<close> of the store above: the
  value in the slot of the request under the key, if any.
\<close>

definition context_Get :: "request \<Rightarrow> string \<Rightarrow> world \<Rightarrow> ctx_value option" where
  "context_Get r key w = ctx_store w (req_id r) key"

text \<open>
  A run of \<open>Set\<close> calls, in the order in which they reach the store. Requests served at
  the same time interleave their calls; each call acts on the store as a whole.
\<close>

fun context_Sets :: "(request \<times> string \<times> ctx_value) list \<Rightarrow> world \<Rightarrow> world" where
  "context_Sets [] w = w"
| "context_Sets ((r, key, val) # ops) w = context_Sets ops (context_Set r key val w)"

text \<open>
  \<^verbatim>\<open>
  func prepareSomething(w http.ResponseWriter, r *http.Request) {
    context.Set(r, "logger", logger)
  }

  func handleSomethingElse(w http.ResponseWriter, r *http.Request) {
    logger := context.Get(r, "logger").(*log.Logger)
  }
  \<close>
  The type assertion panics when the value is absent or of another type.
\<close>

definition prepareSomething :: "string \<Rightarrow> handler" where
  "prepareSomething logger = (\<lambda>r w. (Returned, context_Set r ''logger'' (Logger logger) w))"

definition handleSomethingElse :: handler where
  "handleSomethingElse = (\<lambda>r w.
     case context_Get r ''logger'' w of
       Some (Logger logger) \<Rightarrow> (Returned, w)
     | _ \<Rightarrow> (Panicked, w))"

text \<open>
  Modelled from the spec: \<^verbatim>\<open>Session.Copy\<close> and \<^verbatim>\<open>Session.Close\<close> of the database driver
  (mgo), whose code is not among the sources. A copy is a new session checked out for
  one request ("a borrowed database session"), and closing returns it.
\<close>

definition Session_Copy :: "nat \<Rightarrow> world \<Rightarrow> nat \<times> world" where
  "Session_Copy s w =
     (next_session w,
      w\<lparr>next_session := Suc (next_session w),
        open_sessions := next_session w # open_sessions w\<rparr>)"

text \<open>
  Modelled from the spec: \<^verbatim>\<open>Session.Close\<close> of the database driver, the release of a
  session that was checked out.
\<close>

definition Session_Close :: "nat \<Rightarrow> world \<Rightarrow> world" where
  "Session_Close s w = w\<lparr>open_sessions := removeAll s (open_sessions w)\<rparr>"

text \<open>
  \<^verbatim>\<open>
  func WithDB(s *mgo.Session, h http.Handler) http.Handler {
    return &dbwrapper{dbSession: s, h: h}
  }

  func (dbwrapper *dbwrapper) ServeHTTP(w http.ResponseWriter, r *http.Request) {
    // copy the session
    dbcopy := h.dbSession.Copy()
    defer dbcopy.Close() // clean up after handler execution

    // put session in the context for this Request
    context.Set(r, "db", dbcopy)

    // serve the request
    dbwrapper.h.ServeHTTP(w, r)
  }
  \<close>
  The two fields of the wrapper are the two arguments here. (The source reads the
  session as \<^verbatim>\<open>h.dbSession\<close>; the receiver is the wrapper.)
\<close>

definition dbwrapper_ServeHTTP :: "nat \<Rightarrow> handler \<Rightarrow> handler" where
  "dbwrapper_ServeHTTP dbSession h = (\<lambda>r w.
     let (dbcopy, w1) = Session_Copy dbSession w;
         w2 = context_Set r ''db'' (Session dbcopy) w1;
         (out, w3) = h r w2
     in (out, Session_Close dbcopy w3))"

definition WithDB :: "nat \<Rightarrow> handler \<Rightarrow> handler" where
  "WithDB s h = dbwrapper_ServeHTTP s h"

text \<open>
  \<^verbatim>\<open>
  func respond(w http.ResponseWriter, r *http.Request, status int, data interface{}) {
    var buf bytes.Buffer
    if err := json.NewEncoder(&buf).Encode(data); err != nil {
      http.Error(w, err.Error(), http.StatusInternalServerError)
      return
    }
    w.WriteHeader(status)
    if _, err := io.Copy(w, &buf); err != nil {
      log.Println("respond:", err)
    }
  }
  \<close>
  The encoder is a parameter; the copy into the response writer is taken to succeed.
\<close>

datatype data = Err string | Results "string list"

definition respond :: "(data \<Rightarrow> string + string) \<Rightarrow> nat \<Rightarrow> data \<Rightarrow> world \<Rightarrow> world" where
  "respond encode code d w =
     (case encode d of
        Inl err \<Rightarrow> http_Error err 500 w
      | Inr buf \<Rightarrow> Write buf (WriteHeader code w))"

text \<open>
  \<^verbatim>\<open>
  func handleThingsRead(w http.ResponseWriter, r *http.Resquest) {
    db := context.Get(r, "db").(*mgo.Session)

    var results []interface{}
    if err := db.DB("myapp").C("things").Find(nil).All(&results); err != nil {
      respond.With(w, r, http.StatusInternalServerError, err)
      return
    }

    respond.With(w, r, http.StatusOK, results)
  }
  \<close>
  The query is a parameter: what the session handed to it finds, or an error.
\<close>

definition handleThingsRead ::
  "(data \<Rightarrow> string + string) \<Rightarrow> (nat \<Rightarrow> string + string list) \<Rightarrow> handler" where
  "handleThingsRead encode find_all = (\<lambda>r w.
     case context_Get r ''db'' w of
       Some (Session db) \<Rightarrow>
         (case find_all db of
            Inl err \<Rightarrow> (Returned, respond encode 500 (Err err) w)
          | Inr results \<Rightarrow> (Returned, respond encode 200 (Results results) w))
     | _ \<Rightarrow> (Panicked, w))"

section \<open>The todo application\<close>

record Todo =
  Title :: string
  Done :: bool

record TodoPageData =
  PageTitle :: string
  Todos :: "Todo list"

text \<open>
  Modelled from the spec: \<^verbatim>\<open>tmpl.Execute(w, data)\<close> of html/template, whose code is not
  among the sources: "\<open>render(templateSource, data)\<close> gives a byte sequence (or error)",
  and "partial output already written before the error is not guaranteed to be rolled
  back". The template is a parameter: for the data it gives the bytes it produces and
  the error, if any; the bytes are written to \<open>w\<close> and the error is returned.
\<close>

definition tmpl_Execute ::
  "(TodoPageData \<Rightarrow> string \<times> string option) \<Rightarrow> TodoPageData \<Rightarrow> world \<Rightarrow> string option \<times> world" where
  "tmpl_Execute tmpl d w =
     (case tmpl d of (out, err) \<Rightarrow> (err, if out = [] then w else Write out w))"

text \<open>
  \<^verbatim>\<open>
  http.HandleFunc("/", func(w http.ResponseWriter, r *http.Request) {
    data := TodoPageData {
      PageTitle: "My TODO List",
      Todos: []Todo {
        {Title: "Task 1", Done: false},
        {Title: "Task 2", Done: true},
        {Title: "Task 3", Done: true},
      },
    }
    // tmpl variable is captured on this scope.
    tmpl.Execute(w, data)
  })
  \<close>
  The value that \<open>Execute\<close> returns is not bound.
\<close>

definition todo_data :: TodoPageData where
  "todo_data = \<lparr>PageTitle = ''My TODO List'',
     Todos = [\<lparr>Title = ''Task 1'', Done = False\<rparr>,
              \<lparr>Title = ''Task 2'', Done = True\<rparr>,
              \<lparr>Title = ''Task 3'', Done = True\<rparr>]\<rparr>"

definition todo_handler :: "(TodoPageData \<Rightarrow> string \<times> string option) \<Rightarrow> handler" where
  "todo_handler tmpl = (\<lambda>r w.
     let (err, w1) = tmpl_Execute tmpl todo_data w
     in (Returned, w1))"

text \<open>
  Two template runs that fail on a field the data does not have: one before it writes
  anything, one after the first bytes.
\<close>

definition fails_at_once :: "TodoPageData \<Rightarrow> string \<times> string option" where
  "fails_at_once d = ([], Some ''no such field'')"

definition fails_midway :: "TodoPageData \<Rightarrow> string \<times> string option" where
  "fails_midway d = (''<h1>'', Some ''no such field'')"

section \<open>The router\<close>

text \<open>
  Modelled from the spec: the matching of a route pattern against a request path
  (gorilla/mux), whose code is not among the sources. "Exact literal segments match
  literally; placeholder segments (\<open>{name}\<close>) match any single path segment and bind it
  by name. No wildcard-across-segments matching"; routes are tried in registration
  order and the first match wins; a path that no route matches gets "not found".
\<close>

datatype segment = Literal string | Placeholder string

text \<open>
  Modelled from the spec: a path as its segments, the pieces between the slashes.
\<close>

fun split_path :: "string \<Rightarrow> string list" where
  "split_path [] = [[]]"
| "split_path (c # cs) =
     (if c = CHR ''/'' then [] # split_path cs
      else (case split_path cs of
              s # ss \<Rightarrow> (c # s) # ss
            | [] \<Rightarrow> [[c]]))"

text \<open>
  Modelled from the spec: a pattern segment \<open>{name}\<close> is a placeholder of that name, any
  other segment is a literal.
\<close>

definition parse_segment :: "string \<Rightarrow> segment" where
  "parse_segment s =
     (case s of
        [] \<Rightarrow> Literal []
      | c # cs \<Rightarrow>
          if c = CHR ''{'' \<and> cs \<noteq> [] \<and> last cs = CHR ''}''
          then Placeholder (butlast cs)
          else Literal s)"

text \<open>
  Modelled from the spec: a route pattern as the list of its segments.
\<close>

definition parse_pattern :: "string \<Rightarrow> segment list" where
  "parse_pattern pat = map parse_segment (split_path pat)"

text \<open>
  Modelled from the spec: the matching policy. A literal matches the equal segment, a
  placeholder matches the one segment at its place and binds it to its name, and
  pattern and path end together.
\<close>

fun match_route :: "segment list \<Rightarrow> string list \<Rightarrow> (string \<times> string) list option" where
  "match_route [] [] = Some []"
| "match_route (Literal s # ps) (t # ts) =
     (if s = t then match_route ps ts else None)"
| "match_route (Placeholder n # ps) (t # ts) =
     (case match_route ps ts of
        None \<Rightarrow> None
      | Some vs \<Rightarrow> Some ((n, t) # vs))"
| "match_route _ _ = None"

text \<open>
  Modelled from the spec: \<^verbatim>\<open>http.NotFound\<close>, the "not found" status for a path that no
  route matches.
\<close>

definition http_NotFound :: "world \<Rightarrow> world" where
  "http_NotFound w = http_Error ''404 page not found'' 404 w"

text \<open>
  Modelled from the spec: dispatch. The handler of the first route whose pattern
  matches runs on the request with the bindings as its route variables.
\<close>

fun dispatch :: "(string \<times> handler) list \<Rightarrow> handler" where
  "dispatch [] r w = (Returned, http_NotFound w)"
| "dispatch ((pat, h) # routes) r w =
     (case match_route (parse_pattern pat) (split_path (url_path r)) of
        Some vs \<Rightarrow> h (r\<lparr>vars := vs\<rparr>) w
      | None \<Rightarrow> dispatch routes r w)"

text \<open>
  Modelled from the spec: \<^verbatim>\<open>mux.Vars(r)\<close> read at a name, as in
  \<^verbatim>\<open>vars := mux.Vars(r); title := vars["title"]\<close>: the binding of the placeholder of that
  name; reading a Go map at a key it does not have gives the empty string.
\<close>

definition mux_Vars :: "request \<Rightarrow> string \<Rightarrow> string" where
  "mux_Vars r name = (case map_of (vars r) name of None \<Rightarrow> [] | Some v \<Rightarrow> v)"

text \<open>
  \<^verbatim>\<open>
  r.HandleFunc("/books/{title}/page/{page}", func(w http.ResponseWriter, r *http.Request) {
    fmt.Fprintf(w, "Hello, you have requested: %s\n", r.URL.Path)
    vars := mux.Vars(r)
    title := vars["title"]
    page := vars["page"]
    fmt.Fprintf(w, "Hello, you have requested the book %s on page %s\n", title, page)
  })

  fs := http.FileServer(http.Dir("static/"))
  r.Handle("/static/", http.StripPrefix("/static/", fs))
  \<close>
  The handler of the second route is a parameter of the router here.
\<close>

definition books_handler :: handler where
  "books_handler = (\<lambda>r w.
     let w1 = Fprint (''Hello, you have requested: '' @ url_path r @ ''\<newline>'') w;
         title = mux_Vars r ''title'';
         page = mux_Vars r ''page'';
         w2 = Fprint (''Hello, you have requested the book '' @ title @ '' on page '' @ page
                      @ ''\<newline>'') w1
     in (Returned, w2))"

definition main_router :: "handler \<Rightarrow> handler" where
  "main_router static = dispatch
     [(''/books/{title}/page/{page}'', books_handler),
      (''/static/'', static)]"

section \<open>The template renderer\<close>

text \<open>
  Modelled from the spec: the template renderer (html/template), whose code is not
  among the sources. "Output must escape any data values interpolated into HTML
  contexts"; "template rendering escapes HTML-significant characters in interpolated
  string data". The HTML-significant characters are \<open><\<close>, \<open>>\<close>, \<open>&\<close> and the two
  quotes, each replaced by its character reference.
\<close>

definition escape_char :: "char \<Rightarrow> string" where
  "escape_char c =
     (if c = CHR ''<'' then ''&lt;''
      else if c = CHR ''>'' then ''&gt;''
      else if c = CHR ''&'' then ''&amp;''
      else if c = CHR 0x22 then ''&#34;''
      else if c = CHR 0x27 then ''&#39;''
      else [c])"

text \<open>
  Modelled from the spec: the escaping of an interpolated string value, character by
  character.
\<close>

definition HTMLEscapeString :: "string \<Rightarrow> string" where
  "HTMLEscapeString s = concat (map escape_char s)"

text \<open>
  Modelled from the spec: the rendering of the todo layout, whose file
  \<^verbatim>\<open>layout.html\<close> is not among the sources; the documentation gives the template as
  \<^verbatim>\<open>
  <h1>{{.PageTitle}}</h1>
  <ul>
    {{range .Todos}}
      {{if .Done}}
        <li class="done">{{.Title}}</li>
      {{else}}
        <li>{{.Title}}</li>
      {{end}}
    {{end}}
  </ul>
  \<close>
  The text of the template is copied as it stands, each \<^verbatim>\<open>{{.Field}}\<close> is replaced by
  the escaped value of the field, the body of \<^verbatim>\<open>range\<close> is rendered once for each
  todo in order, and \<^verbatim>\<open>if\<close> selects one of its two branches.
\<close>

definition render_todo :: "Todo \<Rightarrow> string" where
  "render_todo t =
     ''\<newline>    '' @
     (if Done t
      then ''\<newline>      <li class='' @ [CHR 0x22] @ ''done'' @ [CHR 0x22] @ ''>''
           @ HTMLEscapeString (Title t) @ ''</li>\<newline>    ''
      else ''\<newline>      <li>'' @ HTMLEscapeString (Title t) @ ''</li>\<newline>    '')
     @ ''\<newline>  ''"

text \<open>
  Modelled from the spec: the rendering of the whole layout against the page data, with
  \<open>render_todo\<close> for the body of \<^verbatim>\<open>range\<close>.
\<close>

definition render_layout :: "TodoPageData \<Rightarrow> string" where
  "render_layout d =
     ''<h1>'' @ HTMLEscapeString (PageTitle d) @ ''</h1>\<newline><ul>\<newline>  ''
     @ concat (map render_todo (Todos d))
     @ ''\<newline></ul>''"

text \<open>
  A text in which no \<open><\<close> is directly followed by \<open>s\<close> and which does not end in
  \<open><\<close>: no piece of it, and no piece that it starts, opens a \<^verbatim>\<open><script>\<close> tag.
\<close>

fun no_lt_s :: "string \<Rightarrow> bool" where
  "no_lt_s [] = True"
| "no_lt_s [c] = (c \<noteq> CHR ''<'')"
| "no_lt_s (c # d # r) = (\<not> (c = CHR ''<'' \<and> d = CHR ''s'') \<and> no_lt_s (d # r))"

text \<open>
  Modelled from the spec: how escaped text "renders as inert text". Each of the five
  character references is shown as the character it stands for, and every other
  character as itself.
\<close>

function unescape :: "string \<Rightarrow> string" where
  "unescape [] = []"
| "unescape (c # s) =
     (if c = CHR ''&'' then
        (if take 3 s = ''lt;'' then CHR ''<'' # unescape (drop 3 s)
         else if take 3 s = ''gt;'' then CHR ''>'' # unescape (drop 3 s)
         else if take 4 s = ''amp;'' then CHR ''&'' # unescape (drop 4 s)
         else if take 4 s = ''#34;'' then CHR 0x22 # unescape (drop 4 s)
         else if take 4 s = ''#39;'' then CHR 0x27 # unescape (drop 4 s)
         else c # unescape s)
      else c # unescape s)"
  by pat_completeness auto
termination
  by (relation "measure length") auto

section \<open>The static file responder\<close>

text \<open>
  Modelled from the spec: the static file responder (\<^verbatim>\<open>http.FileServer\<close> behind
  \<^verbatim>\<open>http.StripPrefix\<close>), whose code is not among the sources; the sources only set it up:
  \<^verbatim>\<open>
  fs := http.FileServer(http.Dir("static/"))
  r.Handle("/static/", http.StripPrefix("/static/", fs))
  \<close>
  "Given a URL prefix and a root directory, resolve a request path to a file under that
  directory after stripping the prefix, and stream its contents"; it "must reject
  paths that resolve outside the root directory", "a request path containing
  parent-directory traversal segments attempting to escape the configured root
  directory". A directory is the list of its segments from the root of the file
  system, and the files are a map from such lists to contents.

  \<open>resolve_under\<close> walks the segments of the stripped path below the root directory:
  an empty segment and \<^verbatim>\<open>.\<close> stay, \<^verbatim>\<open>..\<close> goes up one directory, and going up from
  the root directory itself is the escape that is rejected.
\<close>

fun resolve_under :: "string list \<Rightarrow> string list \<Rightarrow> string list option" where
  "resolve_under rel [] = Some rel"
| "resolve_under rel (s # ss) =
     (if s = [] \<or> s = ''.'' then resolve_under rel ss
      else if s = ''..'' then (if rel = [] then None else resolve_under (butlast rel) ss)
      else resolve_under (rel @ [s]) ss)"

text \<open>
  Modelled from the spec: \<^verbatim>\<open>http.FileServer\<close> on a root directory. A path that escapes
  is rejected with an error status, a path that resolves to a file under the root
  directory gets the contents of that file, any other path gets "not found".
\<close>

definition FileServer :: "(string list \<rightharpoonup> string) \<Rightarrow> string list \<Rightarrow> handler" where
  "FileServer files root = (\<lambda>r w.
     case resolve_under [] (split_path (url_path r)) of
       None \<Rightarrow> (Returned, http_Error ''invalid URL path'' 400 w)
     | Some rel \<Rightarrow>
         (case files (root @ rel) of
            None \<Rightarrow> (Returned, http_NotFound w)
          | Some content \<Rightarrow> (Returned, Write content w)))"

text \<open>
  Modelled from the spec: \<^verbatim>\<open>http.StripPrefix\<close>. The wrapped handler sees the request path
  without the prefix; a path that does not begin with the prefix gets "not found".
\<close>

definition StripPrefix :: "string \<Rightarrow> handler \<Rightarrow> handler" where
  "StripPrefix pre h = (\<lambda>r w.
     if prefix pre (url_path r)
     then h (r\<lparr>url_path := drop (length pre) (url_path r)\<rparr>) w
     else (Returned, http_NotFound w))"

text \<open>
  Modelled from the spec: the responder as the sources set it up, the file server on
  the root directory behind the prefix \<^verbatim>\<open>/static/\<close>.
\<close>

definition static_handler :: "(string list \<rightharpoonup> string) \<Rightarrow> string list \<Rightarrow> handler" where
  "static_handler files root = StripPrefix ''/static/'' (FileServer files root)"

text \<open>
  Modelled from the spec: "paths that resolve outside the root directory". This is
  what the file system itself makes of a path taken from a directory: \<^verbatim>\<open>..\<close> leaves
  the directory for its parent, wherever that is (the parent of the root of the file
  system is that root). A path resolves outside the root directory of the responder
  when the directory does not begin the result.
\<close>

fun os_resolve :: "string list \<Rightarrow> string list \<Rightarrow> string list" where
  "os_resolve dir [] = dir"
| "os_resolve dir (s # ss) =
     (if s = [] \<or> s = ''.'' then os_resolve dir ss
      else if s = ''..'' then os_resolve (butlast dir) ss
      else os_resolve (dir @ [s]) ss)"

section \<open>Properties of the adapter chain\<close>

lemma Notify_PrePost: "Notify = PrePost (log_Println ''before'') (log_Println ''after'')"
  by (simp add: Notify_def PrePost_def fun_eq_iff)

lemma Adapt_append: "Adapt h (xs @ ys) = Adapt (Adapt h xs) ys"
  by (induction xs arbitrary: h) simp_all

lemma Adapt_foldr_rev: "Adapt h adapters = foldr (\<lambda>a g. a g) (rev adapters) h"
  by (induction adapters arbitrary: h) simp_all

text \<open>
  Claim C10. With no adapter the loop body never runs: \<open>Adapt\<close> returns the base
  handler itself.
\<close>

theorem Adapt_no_adapters: "Adapt h [] = h"
  by simp

lemma Adapt_PrePost_run:
  "Adapt h (map (\<lambda>(pre, post). PrePost pre post) ps) r w =
     (case h r (foldr (\<lambda>(pre, post). pre) ps w) of
        (out, w') \<Rightarrow> (out, fold (\<lambda>(pre, post). post) ps w'))"
proof (induction ps arbitrary: w rule: rev_induct)
  case Nil
  show ?case by simp
next
  case (snoc p ps)
  obtain pre post where p: "p = (pre, post)" by (cases p)
  have "Adapt h (map (\<lambda>(pre, post). PrePost pre post) (ps @ [p])) r w =
        PrePost pre post (Adapt h (map (\<lambda>(pre, post). PrePost pre post) ps)) r w"
    by (simp add: Adapt_append p)
  also have "\<dots> = (case Adapt h (map (\<lambda>(pre, post). PrePost pre post) ps) r (pre w) of
                     (out, w2) \<Rightarrow> (out, post w2))"
    by (simp add: PrePost_def)
  also have "\<dots> = (case h r (foldr (\<lambda>(pre, post). pre) ps (pre w)) of
                     (out, w') \<Rightarrow> (out, post (fold (\<lambda>(pre, post). post) ps w')))"
    by (simp add: snoc.IH split: prod.splits)
  finally show ?case by (simp add: p)
qed

text \<open>
  Claim C1, amended. \<open>Adapt h [a1, ..., an]\<close> is \<open>an (... (a1 h))\<close>: the last adapter of
  the list is the outermost wrapper. Execution therefore begins with the last adapter
  supplied: for adapters of the shape of \<open>Notify\<close> the pre-logic runs from the last
  adapter to the first, then the base handler, then the deferred post-logic from the
  first adapter to the last.
\<close>

theorem Adapt_last_is_outermost:
  "Adapt h adapters = foldr (\<lambda>a g. a g) (rev adapters) h
   \<and> Adapt h (adapters @ [a]) = a (Adapt h adapters)
   \<and> Adapt h (map (\<lambda>(pre, post). PrePost pre post) ps) r w =
       (case h r (foldr (\<lambda>(pre, post). pre) ps w) of
          (out, w') \<Rightarrow> (out, fold (\<lambda>(pre, post). post) ps w'))"
proof (intro conjI)
  show "Adapt h adapters = foldr (\<lambda>a g. a g) (rev adapters) h"
    by (rule Adapt_foldr_rev)
  show "Adapt h (adapters @ [a]) = a (Adapt h adapters)"
    by (simp add: Adapt_append)
  show "Adapt h (map (\<lambda>(pre, post). PrePost pre post) ps) r w =
       (case h r (foldr (\<lambda>(pre, post). pre) ps w) of
          (out, w') \<Rightarrow> (out, fold (\<lambda>(pre, post). post) ps w'))"
    by (rule Adapt_PrePost_run)
qed

text \<open>
  The claim as stated has the caller list the adapters in the order in which execution
  begins. With two adapters listed as \<open>a1, a2\<close> the first record in the log is the one
  of \<open>a2\<close>.
\<close>

theorem Adapt_runs_last_adapter_first:
  "logs (snd (Adapt (mark ''handler'')
       [PrePost (log_Println ''a1 before'') (log_Println ''a1 after''),
        PrePost (log_Println ''a2 before'') (log_Println ''a2 after'')]
       (request0 ''/'') world0))
   = [''a2 before'', ''a1 before'', ''handler'', ''a1 after'', ''a2 after'']
   \<and> hd (logs (snd (Adapt (mark ''handler'')
       [PrePost (log_Println ''a1 before'') (log_Println ''a1 after''),
        PrePost (log_Println ''a2 before'') (log_Println ''a2 after'')]
       (request0 ''/'') world0))) \<noteq> ''a1 before''"
  by (simp add: PrePost_def mark_def log_Println_def world0_def)

text \<open>
  Claim C2. An outer adapter A around an inner adapter B around a handler H, both of
  the shape of \<open>Notify\<close> (pre-logic, deferred post-logic, the wrapped handler in
  between): A's pre-logic runs first, then B's, then H, then B's post-logic, then A's.
  For \<open>Notify\<close> itself and for adapters that log, the records appear in that order
  around the records of H.
\<close>

theorem adapters_run_as_a_stack:
  "PrePost preA postA (PrePost preB postB H) r w =
     (case H r (preB (preA w)) of (out, w') \<Rightarrow> (out, postA (postB w')))
   \<and> Notify (Notify H) r w =
     (case H r (log_Println ''before'' (log_Println ''before'' w)) of
        (out, w') \<Rightarrow> (out, log_Println ''after'' (log_Println ''after'' w')))
   \<and> (logs (snd (H r (log_Println b1 (log_Println a1 w)))) = logs w @ [a1, b1] @ hs \<longrightarrow>
      logs (snd (PrePost (log_Println a1) (log_Println a2)
                  (PrePost (log_Println b1) (log_Println b2) H) r w))
        = logs w @ [a1, b1] @ hs @ [b2, a2])"
  by (simp add: Notify_def PrePost_def log_Println_def split: prod.splits)

theorem adapters_run_as_a_stack_witness:
  "logs (snd (PrePost (log_Println ''A before'') (log_Println ''A after'')
                (PrePost (log_Println ''B before'') (log_Println ''B after'') (mark ''H''))
                (request0 ''/'') world0))
   = [''A before'', ''B before'', ''H'', ''B after'', ''A after'']"
  using adapters_run_as_a_stack [of "log_Println ''A before''" "log_Println ''A after''"
      "log_Println ''B before''" "log_Println ''B after''" "mark ''H''" "request0 ''/''" world0
      "''B before''" "''A before''" "[''H'']" "''B after''" "''A after''"]
  by (simp add: mark_def log_Println_def world0_def)

text \<open>
  Claim C3. The handler that \<open>logging f\<close> returns runs \<open>f\<close> once, on a world that
  differs from the one it was given only by the record of the request path at the end
  of the log, and what \<open>f\<close> returns is the result. A call record left by \<open>f\<close> appears
  once. The response is the one \<open>f\<close> writes; for a handler whose response does not
  depend on the log this is the response of \<open>f\<close> run alone.
\<close>

theorem logging_only_adds_a_record:
  "logging f r w = f r (w\<lparr>logs := logs w @ [url_path r]\<rparr>)
   \<and> resp (w\<lparr>logs := logs w @ [url_path r]\<rparr>) = resp w
   \<and> logs (snd (logging (\<lambda>r w. case f r w of (out, w') \<Rightarrow> (out, log_Println c w')) r w))
       = logs (snd (f r (log_Println (url_path r) w))) @ [c]
   \<and> ((\<forall>l. resp (snd (f r (w\<lparr>logs := l\<rparr>))) = resp (snd (f r w))) \<longrightarrow>
        resp (snd (logging f r w)) = resp (snd (f r w)))"
  by (simp add: logging_def log_Println_def split: prod.splits)

theorem logging_only_adds_a_record_witness:
  "logging foo (request0 ''/foo'') world0
     = (Returned, world0\<lparr>resp := response0\<lparr>status := Some 200, body := ''foo\<newline>''\<rparr>,
                         logs := [''/foo'']\<rparr>)
   \<and> resp (snd (logging foo (request0 ''/foo'') world0)) = resp (snd (foo (request0 ''/foo'') world0))"
  using logging_only_adds_a_record [of foo "request0 ''/foo''" world0 "''call''"]
  by (simp add: foo_def Fprint_def Write_def WriteHeader_def request0_def world0_def response0_def)

section \<open>Properties of the request context\<close>

lemma context_Sets_frame:
  "\<forall>(r', k', v') \<in> set ops. req_id r' \<noteq> i \<or> k' \<noteq> key \<Longrightarrow>
   ctx_store (context_Sets ops w) i key = ctx_store w i key"
proof (induction ops arbitrary: w)
  case Nil
  show ?case by simp
next
  case (Cons op ops)
  obtain r' k' v' where op: "op = (r', k', v')" by (cases op)
  from Cons.prems op have here: "req_id r' \<noteq> i \<or> k' \<noteq> key"
    and rest: "\<forall>(r', k', v') \<in> set ops. req_id r' \<noteq> i \<or> k' \<noteq> key"
    by auto
  have "ctx_store (context_Sets (op # ops) w) i key =
        ctx_store (context_Set r' k' v' w) i key"
    using Cons.IH [OF rest] by (simp add: op)
  also have "\<dots> = ctx_store w i key"
    using here by (auto simp: context_Set_def)
  finally show ?case .
qed

lemma dbwrapper_ServeHTTP_run:
  "dbwrapper_ServeHTTP s h r w =
     (case h r (context_Set r ''db'' (Session (next_session w)) (snd (Session_Copy s w))) of
        (out, w3) \<Rightarrow> (out, Session_Close (next_session w) w3))"
  by (simp add: dbwrapper_ServeHTTP_def Session_Copy_def split: prod.splits)

text \<open>
  Claim C4. Within one request a value set under a key is what a later get for that key
  returns, also after any further \<open>Set\<close> calls that are for another request or another
  key. \<open>dbwrapper.ServeHTTP\<close> runs the wrapped handler on the world in which the copy of
  the session is stored under \<^verbatim>\<open>"db"\<close> for the request, so \<open>handleThingsRead\<close>, wrapped
  directly or behind \<open>Notify\<close>, finds that session there, does not panic and answers
  with what the query on that very session gives.
\<close>

theorem context_value_reaches_handler:
  "context_Get r key (context_Set r key v w) = Some v
   \<and> ((\<forall>(r', k', v') \<in> set ops. req_id r' \<noteq> req_id r \<or> k' \<noteq> key) \<longrightarrow>
        context_Get r key (context_Sets ops (context_Set r key v w)) = Some v)
   \<and> (let dbcopy = fst (Session_Copy s w);
           w2 = context_Set r ''db'' (Session dbcopy) (snd (Session_Copy s w))
       in dbwrapper_ServeHTTP s h r w =
            (case h r w2 of (out, w3) \<Rightarrow> (out, Session_Close dbcopy w3))
          \<and> context_Get r ''db'' w2 = Some (Session dbcopy)
          \<and> WithDB s (handleThingsRead encode find_all) r w =
              (Returned, Session_Close dbcopy
                 (case find_all dbcopy of
                    Inl err \<Rightarrow> respond encode 500 (Err err) w2
                  | Inr results \<Rightarrow> respond encode 200 (Results results) w2))
          \<and> fst (WithDB s (Notify (handleThingsRead encode find_all)) r w) = Returned)"
proof (intro conjI)
  show "context_Get r key (context_Set r key v w) = Some v"
    by (simp add: context_Get_def context_Set_def)
  show "(\<forall>(r', k', v') \<in> set ops. req_id r' \<noteq> req_id r \<or> k' \<noteq> key) \<longrightarrow>
        context_Get r key (context_Sets ops (context_Set r key v w)) = Some v"
    by (simp add: context_Get_def context_Sets_frame) (simp add: context_Set_def)
  show "let dbcopy = fst (Session_Copy s w);
            w2 = context_Set r ''db'' (Session dbcopy) (snd (Session_Copy s w))
        in dbwrapper_ServeHTTP s h r w =
             (case h r w2 of (out, w3) \<Rightarrow> (out, Session_Close dbcopy w3))
           \<and> context_Get r ''db'' w2 = Some (Session dbcopy)
           \<and> WithDB s (handleThingsRead encode find_all) r w =
               (Returned, Session_Close dbcopy
                  (case find_all dbcopy of
                     Inl err \<Rightarrow> respond encode 500 (Err err) w2
                   | Inr results \<Rightarrow> respond encode 200 (Results results) w2))
           \<and> fst (WithDB s (Notify (handleThingsRead encode find_all)) r w) = Returned"
    by (simp add: Let_def WithDB_def dbwrapper_ServeHTTP_run handleThingsRead_def Notify_def
        log_Println_def context_Get_def context_Set_def Session_Copy_def
        split: prod.splits sum.splits)
qed

theorem context_value_reaches_handler_witness:
  "context_Get (request0 ''/things'') ''db''
     (context_Sets [(\<lparr>req_id = 1, url_path = ''/status'', vars = []\<rparr>, ''db'', Session 7),
                    (request0 ''/things'', ''logger'', Logger ''server:'')]
        (context_Set (request0 ''/things'') ''db'' (Session 0) world0))
   = Some (Session 0)"
  using context_value_reaches_handler [of "request0 ''/things''" "''db''" "Session 0" world0
      "[(\<lparr>req_id = 1, url_path = ''/status'', vars = []\<rparr>, ''db'', Session 7),
        (request0 ''/things'', ''logger'', Logger ''server:'')]"]
  by (simp add: request0_def)

text \<open>
  Claim C5. A \<open>Set\<close> for one request never changes what a \<open>Get\<close> for another request
  returns, for any key and value and any interleaving of such calls: the slots are
  keyed by the identity of the request. What \<open>prepareSomething\<close> stores for one
  request is not what \<open>handleSomethingElse\<close> finds for another.
\<close>

theorem context_isolated_between_requests:
  "(req_id r1 \<noteq> req_id r2 \<longrightarrow>
      context_Get r2 k (context_Set r1 k v w) = context_Get r2 k w)
   \<and> ((\<forall>(r', k', v') \<in> set ops. req_id r' \<noteq> req_id r2) \<longrightarrow>
        context_Get r2 k (context_Sets ops w) = context_Get r2 k w)
   \<and> (req_id r1 \<noteq> req_id r2 \<longrightarrow>
        fst (handleSomethingElse r2 (snd (prepareSomething logger r1 w)))
          = fst (handleSomethingElse r2 w))"
proof (intro conjI)
  show "req_id r1 \<noteq> req_id r2 \<longrightarrow>
      context_Get r2 k (context_Set r1 k v w) = context_Get r2 k w"
    by (simp add: context_Get_def context_Set_def)
  show "(\<forall>(r', k', v') \<in> set ops. req_id r' \<noteq> req_id r2) \<longrightarrow>
        context_Get r2 k (context_Sets ops w) = context_Get r2 k w"
  proof
    assume "\<forall>(r', k', v') \<in> set ops. req_id r' \<noteq> req_id r2"
    then have "\<forall>(r', k', v') \<in> set ops. req_id r' \<noteq> req_id r2 \<or> k' \<noteq> k"
      by auto
    then show "context_Get r2 k (context_Sets ops w) = context_Get r2 k w"
      by (simp add: context_Get_def context_Sets_frame)
  qed
  show "req_id r1 \<noteq> req_id r2 \<longrightarrow>
        fst (handleSomethingElse r2 (snd (prepareSomething logger r1 w)))
          = fst (handleSomethingElse r2 w)"
    by (simp add: handleSomethingElse_def prepareSomething_def context_Get_def context_Set_def
        split: option.splits ctx_value.splits)
qed

theorem context_isolated_between_requests_witness:
  "context_Get \<lparr>req_id = 2, url_path = ''/b'', vars = []\<rparr> ''logger''
     (context_Sets [(\<lparr>req_id = 1, url_path = ''/a'', vars = []\<rparr>, ''logger'', Logger ''one''),
                    (\<lparr>req_id = 3, url_path = ''/c'', vars = []\<rparr>, ''logger'', Logger ''three'')]
        world0) = None
   \<and> fst (handleSomethingElse \<lparr>req_id = 2, url_path = ''/b'', vars = []\<rparr>
        (snd (prepareSomething ''one'' \<lparr>req_id = 1, url_path = ''/a'', vars = []\<rparr> world0)))
     = Panicked"
  using context_isolated_between_requests
    [of "\<lparr>req_id = 1, url_path = ''/a'', vars = []\<rparr>"
        "\<lparr>req_id = 2, url_path = ''/b'', vars = []\<rparr>"
        "''logger''" "Logger ''one''" world0
        "[(\<lparr>req_id = 1, url_path = ''/a'', vars = []\<rparr>, ''logger'', Logger ''one''),
          (\<lparr>req_id = 3, url_path = ''/c'', vars = []\<rparr>, ''logger'', Logger ''three'')]"
        "''one''"]
  by (simp add: context_Get_def world0_def handleSomethingElse_def)

section \<open>Properties of the todo application\<close>

text \<open>
  Claim C9, amended. The todo handler does not look at the error that \<open>Execute\<close>
  returns: whatever the template run gives, the handler returns normally, the response
  is what \<open>Execute\<close> wrote (status 200 with the first bytes, unless a status was
  there), and nothing is added to the log.
\<close>

theorem todo_handler_drops_the_error:
  "todo_handler tmpl r w =
     (Returned, if fst (tmpl todo_data) = [] then w else Write (fst (tmpl todo_data)) w)
   \<and> logs (snd (todo_handler tmpl r w)) = logs w
   \<and> status (resp (snd (todo_handler tmpl r w))) =
       (if fst (tmpl todo_data) = [] then status (resp w)
        else Some (case status (resp w) of None \<Rightarrow> 200 | Some c \<Rightarrow> c))"
  by (simp add: todo_handler_def tmpl_Execute_def Write_def WriteHeader_def Let_def
      split: prod.splits option.splits)

text \<open>
  The claim as stated has the handler answer a failed rendering with a server error and
  a log record. For a template run that fails before it writes anything, no status is
  written and the log stays empty; for one that fails after the first bytes, the
  status is 200.
\<close>

theorem todo_handler_no_server_error:
  "todo_handler fails_at_once (request0 ''/'') world0 = (Returned, world0)
   \<and> status (resp (snd (todo_handler fails_at_once (request0 ''/'') world0))) \<noteq> Some 500
   \<and> logs (snd (todo_handler fails_at_once (request0 ''/'') world0)) = []
   \<and> status (resp (snd (todo_handler fails_midway (request0 ''/'') world0))) = Some 200
   \<and> logs (snd (todo_handler fails_midway (request0 ''/'') world0)) = []"
  by (simp add: todo_handler_def tmpl_Execute_def fails_at_once_def fails_midway_def
      Write_def WriteHeader_def world0_def response0_def)

section \<open>Properties of the router\<close>

lemma match_route_shape:
  "match_route ps ts = Some vs \<Longrightarrow>
   length ts = length ps \<and>
   list_all2 (\<lambda>p t. case p of Literal s \<Rightarrow> t = s | Placeholder n \<Rightarrow> (n, t) \<in> set vs) ps ts"
proof (induction ps ts arbitrary: vs rule: match_route.induct)
  case 1
  then show ?case by simp
next
  case (2 s ps t ts)
  then show ?case by (auto split: if_splits)
next
  case (3 n ps t ts)
  from "3.prems" obtain vs' where m: "match_route ps ts = Some vs'" and vs: "vs = (n, t) # vs'"
    by (auto split: option.splits)
  from "3.IH" [OF m] have len: "length ts = length ps"
    and all: "list_all2 (\<lambda>p t. case p of Literal s \<Rightarrow> t = s
                                      | Placeholder n \<Rightarrow> (n, t) \<in> set vs') ps ts"
    by simp_all
  have "list_all2 (\<lambda>p t. case p of Literal s \<Rightarrow> t = s
                               | Placeholder n \<Rightarrow> (n, t) \<in> set vs) ps ts"
    using all by (rule list_all2_mono) (auto simp: vs split: segment.splits)
  with len show ?case by (simp add: vs)
qed simp_all

lemma match_route_literals: "match_route (map Literal ts) ts = Some []"
  by (induction ts) simp_all

text \<open>
  Claim C6. The path \<^verbatim>\<open>/books/dune/page/10\<close> is dispatched to the handler of the route
  \<^verbatim>\<open>/books/{title}/page/{page}\<close>, whose route variables are then \<open>title = dune\<close> and
  \<open>page = 10\<close>, as its answer shows. Whenever a pattern matches a path, the two have
  the same number of segments, every literal segment of the pattern equals the path
  segment at its place, and every placeholder is bound to the one segment at its
  place; a placeholder alone matches any single segment, and literal segments match
  themselves.
\<close>

theorem books_route_binds_title_and_page:
  "main_router static (request0 ''/books/dune/page/10'') w =
     (Returned, Fprint ''Hello, you have requested the book dune on page 10\<newline>''
        (Fprint ''Hello, you have requested: /books/dune/page/10\<newline>'' w))
   \<and> match_route (parse_pattern ''/books/{title}/page/{page}'')
        (split_path ''/books/dune/page/10'') = Some [(''title'', ''dune''), (''page'', ''10'')]
   \<and> mux_Vars ((request0 ''/books/dune/page/10'')\<lparr>vars := [(''title'', ''dune''), (''page'', ''10'')]\<rparr>)
        ''title'' = ''dune''
   \<and> mux_Vars ((request0 ''/books/dune/page/10'')\<lparr>vars := [(''title'', ''dune''), (''page'', ''10'')]\<rparr>)
        ''page'' = ''10''
   \<and> (match_route ps ts = Some vs \<longrightarrow>
        length ts = length ps \<and>
        list_all2 (\<lambda>p t. case p of Literal s \<Rightarrow> t = s
                                 | Placeholder n \<Rightarrow> (n, t) \<in> set vs) ps ts)
   \<and> match_route (map Literal ts) ts = Some []
   \<and> match_route [Placeholder n] [t] = Some [(n, t)]"
proof (intro conjI)
  show "main_router static (request0 ''/books/dune/page/10'') w =
     (Returned, Fprint ''Hello, you have requested the book dune on page 10\<newline>''
        (Fprint ''Hello, you have requested: /books/dune/page/10\<newline>'' w))"
    by (simp add: main_router_def parse_pattern_def parse_segment_def request0_def
        books_handler_def mux_Vars_def)
  show "match_route (parse_pattern ''/books/{title}/page/{page}'')
        (split_path ''/books/dune/page/10'') = Some [(''title'', ''dune''), (''page'', ''10'')]"
    by (simp add: parse_pattern_def parse_segment_def)
  show "mux_Vars ((request0 ''/books/dune/page/10'')\<lparr>vars := [(''title'', ''dune''), (''page'', ''10'')]\<rparr>)
        ''title'' = ''dune''"
    by (simp add: mux_Vars_def)
  show "mux_Vars ((request0 ''/books/dune/page/10'')\<lparr>vars := [(''title'', ''dune''), (''page'', ''10'')]\<rparr>)
        ''page'' = ''10''"
    by (simp add: mux_Vars_def)
  show "match_route ps ts = Some vs \<longrightarrow>
        length ts = length ps \<and>
        list_all2 (\<lambda>p t. case p of Literal s \<Rightarrow> t = s
                                 | Placeholder n \<Rightarrow> (n, t) \<in> set vs) ps ts"
    using match_route_shape by blast
  show "match_route (map Literal ts) ts = Some []"
    by (rule match_route_literals)
  show "match_route [Placeholder n] [t] = Some [(n, t)]"
    by simp
qed

theorem books_route_binds_title_and_page_witness:
  "length (split_path ''/books/dune/page/10'')
     = length (parse_pattern ''/books/{title}/page/{page}'')
   \<and> list_all2 (\<lambda>p t. case p of Literal s \<Rightarrow> t = s
                              | Placeholder n \<Rightarrow> (n, t) \<in> set [(''title'', ''dune''), (''page'', ''10'')])
        (parse_pattern ''/books/{title}/page/{page}'') (split_path ''/books/dune/page/10'')"
  using books_route_binds_title_and_page
    [of "\<lambda>r w. (Returned, w)" world0 "parse_pattern ''/books/{title}/page/{page}''"
        "split_path ''/books/dune/page/10''" "[(''title'', ''dune''), (''page'', ''10'')]"]
  by (simp add: parse_pattern_def parse_segment_def)

section \<open>Properties of the template renderer\<close>

lemma no_lt_s_append: "no_lt_s xs \<Longrightarrow> no_lt_s ys \<Longrightarrow> no_lt_s (xs @ ys)"
proof (induction xs rule: no_lt_s.induct)
  case 1
  then show ?case by simp
next
  case (2 c)
  then show ?case by (cases ys) simp_all
next
  case (3 c d r)
  then show ?case by simp
qed

lemma no_lt_s_Cons: "c \<noteq> CHR ''<'' \<Longrightarrow> no_lt_s (c # xs) = no_lt_s xs"
  by (cases xs) simp_all

lemma no_lt_s_concat: "(\<And>x. x \<in> set xss \<Longrightarrow> no_lt_s x) \<Longrightarrow> no_lt_s (concat xss)"
  by (induction xss) (simp_all add: no_lt_s_append)

lemma no_lt_s_escape: "no_lt_s (HTMLEscapeString s)"
  unfolding HTMLEscapeString_def
  by (rule no_lt_s_concat) (auto simp: escape_char_def)

lemma no_lt_s_render_todo: "no_lt_s (render_todo t)"
  by (simp add: render_todo_def no_lt_s_Cons no_lt_s_append no_lt_s_escape)

lemma no_lt_s_render_layout: "no_lt_s (render_layout d)"
proof -
  have "no_lt_s (concat (map render_todo (Todos d)))"
    by (rule no_lt_s_concat) (auto simp: no_lt_s_render_todo)
  then show ?thesis
    by (simp add: render_layout_def no_lt_s_Cons no_lt_s_append no_lt_s_escape)
qed

lemma no_lt_s_inside: "no_lt_s (ps @ CHR ''<'' # CHR ''s'' # ss) \<Longrightarrow> False"
proof (induction ps)
  case Nil
  then show ?case by simp
next
  case (Cons p ps)
  then show ?case by (cases ps) simp_all
qed

lemma render_layout_no_script: "\<not> sublist ''<script>'' (render_layout d)"
proof
  assume "sublist ''<script>'' (render_layout d)"
  then obtain ps ss where "render_layout d = ps @ ''<script>'' @ ss"
    by (auto simp: sublist_def)
  then have "render_layout d = ps @ CHR ''<'' # CHR ''s'' # (''cript>'' @ ss)"
    by simp
  with no_lt_s_render_layout [of d] no_lt_s_inside show False
    by metis
qed

lemma escape_has_no_markup:
  "CHR ''<'' \<notin> set (HTMLEscapeString s) \<and> CHR ''>'' \<notin> set (HTMLEscapeString s)
   \<and> CHR 0x22 \<notin> set (HTMLEscapeString s) \<and> CHR 0x27 \<notin> set (HTMLEscapeString s)"
  by (induction s) (auto simp: HTMLEscapeString_def escape_char_def)

lemma count_lt_escape: "count_list (HTMLEscapeString s) CHR ''<'' = 0"
  by (induction s) (simp_all add: HTMLEscapeString_def escape_char_def)

lemma count_lt_render_todo: "count_list (render_todo t) CHR ''<'' = 2"
  by (simp add: render_todo_def count_lt_escape)

lemma count_lt_todos: "count_list (concat (map render_todo ts)) CHR ''<'' = 2 * length ts"
  by (induction ts) (simp_all add: count_lt_render_todo)

lemma count_lt_render_layout:
  "count_list (render_layout d) CHR ''<'' = 4 + 2 * length (Todos d)"
  by (simp add: render_layout_def count_lt_escape count_lt_todos)

lemma sublist_escaped_title: "sublist (HTMLEscapeString (Title t)) (render_todo t)"
proof (cases "Done t")
  case True
  then have "render_todo t =
      (''\<newline>    '' @ ''\<newline>      <li class='' @ [CHR 0x22] @ ''done'' @ [CHR 0x22] @ ''>'')
      @ HTMLEscapeString (Title t) @ (''</li>\<newline>    '' @ ''\<newline>  '')"
    by (simp add: render_todo_def)
  then show ?thesis by (simp only: sublist_appendI)
next
  case False
  then have "render_todo t =
      (''\<newline>    '' @ ''\<newline>      <li>'')
      @ HTMLEscapeString (Title t) @ (''</li>\<newline>    '' @ ''\<newline>  '')"
    by (simp add: render_todo_def)
  then show ?thesis by (simp only: sublist_appendI)
qed

lemma sublist_escaped_todo:
  assumes "t \<in> set (Todos d)"
  shows "sublist (HTMLEscapeString (Title t)) (render_layout d)"
proof -
  from assms obtain xs ys where split: "Todos d = xs @ t # ys"
    by (auto simp: in_set_conv_decomp)
  have "render_layout d =
      (''<h1>'' @ HTMLEscapeString (PageTitle d) @ ''</h1>\<newline><ul>\<newline>  ''
         @ concat (map render_todo xs))
      @ render_todo t @ (concat (map render_todo ys) @ ''\<newline></ul>'')"
    by (simp add: render_layout_def split)
  then have "sublist (render_todo t) (render_layout d)"
    by (simp only: sublist_appendI)
  with sublist_escaped_title [of t] show ?thesis
    by (rule sublist_order.order_trans)
qed

lemma HTMLEscapeString_append:
  "HTMLEscapeString (a @ b) = HTMLEscapeString a @ HTMLEscapeString b"
  by (simp add: HTMLEscapeString_def)

lemma unescape_HTMLEscapeString: "unescape (HTMLEscapeString s) = s"
proof (induction s)
  case Nil
  show ?case by (simp add: HTMLEscapeString_def)
next
  case (Cons c s)
  have "HTMLEscapeString (c # s) = escape_char c @ HTMLEscapeString s"
    by (simp add: HTMLEscapeString_def)
  with Cons show ?case
    by (simp add: escape_char_def)
qed

lemma sublist_HTMLEscapeString:
  assumes "sublist x s"
  shows "sublist (HTMLEscapeString x) (HTMLEscapeString s)"
proof -
  from assms obtain ps ss where "s = ps @ x @ ss"
    by (auto simp: sublist_def)
  then have "HTMLEscapeString s =
      HTMLEscapeString ps @ HTMLEscapeString x @ HTMLEscapeString ss"
    by (simp add: HTMLEscapeString_append)
  then show ?thesis by (simp only: sublist_appendI)
qed

lemma HTMLEscapeString_script: "HTMLEscapeString ''<script>'' = ''&lt;script&gt;''"
  by (simp add: HTMLEscapeString_def escape_char_def)

lemma sublist_escaped_page_title: "sublist (HTMLEscapeString (PageTitle d)) (render_layout d)"
  unfolding render_layout_def by (rule sublist_appendI)

lemma script_in_page_title:
  assumes "sublist ''<script>'' (PageTitle d)"
  shows "sublist ''&lt;script&gt;'' (render_layout d)"
proof -
  from sublist_HTMLEscapeString [OF assms]
  have "sublist ''&lt;script&gt;'' (HTMLEscapeString (PageTitle d))"
    by (simp only: HTMLEscapeString_script)
  then show ?thesis
    using sublist_escaped_page_title [of d] by (rule sublist_order.order_trans)
qed

lemma script_in_todo_title:
  assumes "t \<in> set (Todos d)" and "sublist ''<script>'' (Title t)"
  shows "sublist ''&lt;script&gt;'' (render_layout d)"
proof -
  from sublist_HTMLEscapeString [OF assms(2)]
  have "sublist ''&lt;script&gt;'' (HTMLEscapeString (Title t))"
    by (simp only: HTMLEscapeString_script)
  then show ?thesis
    using sublist_escaped_todo [OF assms(1)] by (rule sublist_order.order_trans)
qed

text \<open>
  Claim C7. In the rendered todo layout the page title and every todo title appear in
  escaped form, and a title that contains \<^verbatim>\<open><script>\<close> appears with \<^verbatim>\<open>&lt;script&gt;\<close> in
  its place. The escaped form of a value is the value with each of \<open><\<close>, \<open>>\<close>, \<open>&\<close> and
  the two quotes replaced by its character reference, piece by piece: it holds none of
  \<open><\<close>, \<open>>\<close> and the quotes, and read back as text it is the value itself. Whatever
  the data, the output has exactly the \<open><\<close> of the layout's own tags and \<^verbatim>\<open><script>\<close>
  occurs nowhere in it.
\<close>

theorem interpolated_values_are_escaped:
  "\<not> sublist ''<script>'' (render_layout d)
   \<and> sublist (HTMLEscapeString (PageTitle d)) (render_layout d)
   \<and> (\<forall>t \<in> set (Todos d). sublist (HTMLEscapeString (Title t)) (render_layout d))
   \<and> CHR ''<'' \<notin> set (HTMLEscapeString s) \<and> CHR ''>'' \<notin> set (HTMLEscapeString s)
   \<and> CHR 0x22 \<notin> set (HTMLEscapeString s) \<and> CHR 0x27 \<notin> set (HTMLEscapeString s)
   \<and> HTMLEscapeString ''<script>'' = ''&lt;script&gt;''
   \<and> count_list (render_layout d) CHR ''<'' = 4 + 2 * length (Todos d)
   \<and> unescape (HTMLEscapeString s) = s
   \<and> HTMLEscapeString [] = []
   \<and> HTMLEscapeString [c] =
       (if c = CHR ''<'' then ''&lt;''
        else if c = CHR ''>'' then ''&gt;''
        else if c = CHR ''&'' then ''&amp;''
        else if c = CHR 0x22 then ''&#34;''
        else if c = CHR 0x27 then ''&#39;''
        else [c])
   \<and> HTMLEscapeString (a @ b) = HTMLEscapeString a @ HTMLEscapeString b
   \<and> (sublist x s \<longrightarrow> sublist (HTMLEscapeString x) (HTMLEscapeString s))
   \<and> (sublist ''<script>'' (PageTitle d) \<longrightarrow> sublist ''&lt;script&gt;'' (render_layout d))
   \<and> (\<forall>t \<in> set (Todos d).
        sublist ''<script>'' (Title t) \<longrightarrow> sublist ''&lt;script&gt;'' (render_layout d))"
proof -
  have one: "HTMLEscapeString [c] =
       (if c = CHR ''<'' then ''&lt;''
        else if c = CHR ''>'' then ''&gt;''
        else if c = CHR ''&'' then ''&amp;''
        else if c = CHR 0x22 then ''&#34;''
        else if c = CHR 0x27 then ''&#39;''
        else [c])"
    by (simp add: HTMLEscapeString_def escape_char_def)
  have none: "HTMLEscapeString [] = []"
    by (simp add: HTMLEscapeString_def)
  from render_layout_no_script [of d] sublist_escaped_page_title [of d]
    sublist_escaped_todo [of _ d] escape_has_no_markup [of s] HTMLEscapeString_script
    count_lt_render_layout [of d] unescape_HTMLEscapeString [of s] none one
    HTMLEscapeString_append [of a b] sublist_HTMLEscapeString [of x s]
    script_in_page_title [of d] script_in_todo_title [of _ d]
  show ?thesis by blast
qed

theorem interpolated_values_are_escaped_witness:
  "sublist ''&lt;script&gt;''
     (render_layout \<lparr>PageTitle = ''Tasks & <script>'',
                     Todos = [\<lparr>Title = ''<script>'', Done = False\<rparr>]\<rparr>)
   \<and> \<not> sublist ''<script>''
     (render_layout \<lparr>PageTitle = ''Tasks & <script>'',
                     Todos = [\<lparr>Title = ''<script>'', Done = False\<rparr>]\<rparr>)
   \<and> sublist (HTMLEscapeString ''<script>'') (HTMLEscapeString ''Tasks & <script>'')
   \<and> unescape (HTMLEscapeString ''Tasks & <script>'') = ''Tasks & <script>''
   \<and> HTMLEscapeString ''Tasks & <script>'' = ''Tasks &amp; &lt;script&gt;''"
proof -
  have "''Tasks & <script>'' = ''Tasks & '' @ ''<script>''"
    by simp
  then have inside: "sublist ''<script>'' ''Tasks & <script>''"
    by (simp only: sublist_append_leftI)
  have esc: "HTMLEscapeString ''Tasks & <script>'' = ''Tasks &amp; &lt;script&gt;''"
    by (simp add: HTMLEscapeString_def escape_char_def)
  note page = interpolated_values_are_escaped
    [of "\<lparr>PageTitle = ''Tasks & <script>'', Todos = [\<lparr>Title = ''<script>'', Done = False\<rparr>]\<rparr>"
        "''Tasks & <script>''" "CHR ''&''" "[]" "[]" "''<script>''"]
  from page inside have found: "sublist ''&lt;script&gt;''
     (render_layout \<lparr>PageTitle = ''Tasks & <script>'',
                     Todos = [\<lparr>Title = ''<script>'', Done = False\<rparr>]\<rparr>)"
    by simp
  from page have absent: "\<not> sublist ''<script>''
     (render_layout \<lparr>PageTitle = ''Tasks & <script>'',
                     Todos = [\<lparr>Title = ''<script>'', Done = False\<rparr>]\<rparr>)"
    by (rule conjunct1)
  from page inside
  have kept: "sublist (HTMLEscapeString ''<script>'') (HTMLEscapeString ''Tasks & <script>'')"
    by blast
  from page have roundtrip: "unescape (HTMLEscapeString ''Tasks & <script>'') = ''Tasks & <script>''"
    by blast
  from found absent kept roundtrip esc show ?thesis
    by (intro conjI)
qed

section \<open>Properties of the static file responder\<close>

lemma resolve_under_os_resolve:
  "resolve_under rel segs = Some r \<Longrightarrow> os_resolve (root @ rel) segs = root @ r"
proof (induction segs arbitrary: rel)
  case Nil
  then show ?case by simp
next
  case (Cons s ss)
  show ?case
  proof (cases "s = [] \<or> s = ''.''")
    case True
    with Cons.prems have "resolve_under rel ss = Some r" by auto
    from Cons.IH [OF this] True show ?thesis by auto
  next
    case skip: False
    show ?thesis
    proof (cases "s = ''..''")
      case True
      with skip Cons.prems have ne: "rel \<noteq> []" and "resolve_under (butlast rel) ss = Some r"
        by (auto split: if_splits)
      from Cons.IH [OF this(2)] ne True skip show ?thesis
        by (simp add: butlast_append)
    next
      case False
      with skip Cons.prems have "resolve_under (rel @ [s]) ss = Some r" by auto
      from Cons.IH [OF this] False skip show ?thesis by simp
    qed
  qed
qed

lemma escaping_path_not_resolved:
  assumes "\<not> prefix root (os_resolve root segs)"
  shows "resolve_under [] segs = None"
proof (cases "resolve_under [] segs")
  case None
  then show ?thesis .
next
  case (Some r)
  from resolve_under_os_resolve [OF Some, of root] have "os_resolve root segs = root @ r"
    by simp
  with assms show ?thesis by simp
qed

text \<open>
  Claim C8. A request path under \<^verbatim>\<open>/static/\<close> whose rest, taken from the root directory,
  resolves outside that directory is rejected by the responder. The answer of the
  responder never depends on a file outside the root directory: two file systems
  that agree below the root directory get the same answer to every request.
\<close>

theorem static_responder_stays_under_root:
  "(\<not> prefix root (os_resolve root (split_path rest)) \<longrightarrow>
      static_handler files root (r\<lparr>url_path := ''/static/'' @ rest\<rparr>) w
        = (Returned, http_Error ''invalid URL path'' 400 w))
   \<and> ((\<forall>f. prefix root f \<longrightarrow> files f = files' f) \<longrightarrow>
        static_handler files root r w = static_handler files' root r w)"
proof (intro conjI)
  show "\<not> prefix root (os_resolve root (split_path rest)) \<longrightarrow>
      static_handler files root (r\<lparr>url_path := ''/static/'' @ rest\<rparr>) w
        = (Returned, http_Error ''invalid URL path'' 400 w)"
    by (simp add: static_handler_def StripPrefix_def FileServer_def escaping_path_not_resolved)
  show "(\<forall>f. prefix root f \<longrightarrow> files f = files' f) \<longrightarrow>
        static_handler files root r w = static_handler files' root r w"
    by (simp add: static_handler_def StripPrefix_def FileServer_def split: option.splits)
qed

theorem static_responder_stays_under_root_witness:
  "os_resolve [''srv'', ''static''] (split_path ''../secret.txt'') = [''srv'', ''secret.txt'']
   \<and> static_handler [[''srv'', ''static'', ''css'', ''styles.css''] \<mapsto> ''body {}'',
                      [''srv'', ''secret.txt''] \<mapsto> ''s3cret'']
        [''srv'', ''static''] (request0 ''/static/../secret.txt'') world0
      = (Returned, http_Error ''invalid URL path'' 400 world0)
   \<and> static_handler [[''srv'', ''static'', ''css'', ''styles.css''] \<mapsto> ''body {}'',
                      [''srv'', ''secret.txt''] \<mapsto> ''s3cret'']
        [''srv'', ''static''] (request0 ''/static/css/styles.css'') world0
      = static_handler [[''srv'', ''static'', ''css'', ''styles.css''] \<mapsto> ''body {}'']
        [''srv'', ''static''] (request0 ''/static/css/styles.css'') world0"
proof -
  have out: "\<not> prefix [''srv'', ''static'']
              (os_resolve [''srv'', ''static''] (split_path ''../secret.txt''))"
    by simp
  have agree: "\<forall>f. prefix [''srv'', ''static''] f \<longrightarrow>
      [[''srv'', ''static'', ''css'', ''styles.css''] \<mapsto> ''body {}'',
       [''srv'', ''secret.txt''] \<mapsto> ''s3cret''] f
      = [[''srv'', ''static'', ''css'', ''styles.css''] \<mapsto> ''body {}''] f"
    by auto
  from static_responder_stays_under_root
    [of "[''srv'', ''static'']" "''../secret.txt''"
        "[[''srv'', ''static'', ''css'', ''styles.css''] \<mapsto> ''body {}'',
          [''srv'', ''secret.txt''] \<mapsto> ''s3cret'']"
        "request0 ''/static/../secret.txt''" world0
        "[[''srv'', ''static'', ''css'', ''styles.css''] \<mapsto> ''body {}'']"]
    static_responder_stays_under_root
    [of "[''srv'', ''static'']" "''../secret.txt''"
        "[[''srv'', ''static'', ''css'', ''styles.css''] \<mapsto> ''body {}'',
          [''srv'', ''secret.txt''] \<mapsto> ''s3cret'']"
        "request0 ''/static/css/styles.css''" world0
        "[[''srv'', ''static'', ''css'', ''styles.css''] \<mapsto> ''body {}'']"]
    out agree
  show ?thesis by (simp add: request0_def)
qed

end
